theory Spec2Isabelle
  imports Complex_Main "HOL-Library.Multiset" "HOL-Library.AList"
    "HOL-Library.Char_ord" "HOL-Library.List_Lexorder"
begin

section \<open>Python values\<close>

text \<open>
  A Python float is modelled as an exact real number or one of the three special values
  of IEEE arithmetic. Rounding and overflow are not modelled; comparisons and the
  special-value rules are. Python's \<open>None\<close> is the \<open>None\<close> of an option type
  wherever the source tests \<open>is not None\<close>.
\<close>

datatype pyfloat = NaN | PInf | NInf | Num real

datatype py_error = ZeroDivisionError | ValueError | KeyError | ChainError string

fun isnan :: "pyfloat \<Rightarrow> bool" where
  "isnan NaN = True"
| "isnan _ = False"

text \<open>\<open>a <= b\<close> on floats: every comparison with NaN is false.\<close>

fun fle :: "pyfloat \<Rightarrow> pyfloat \<Rightarrow> bool" where
  "fle NaN _ = False"
| "fle _ NaN = False"
| "fle NInf _ = True"
| "fle _ PInf = True"
| "fle PInf _ = False"
| "fle _ NInf = False"
| "fle (Num a) (Num b) = (a \<le> b)"

definition fge :: "pyfloat \<Rightarrow> pyfloat \<Rightarrow> bool" where
  "fge a b = fle b a"

text \<open>\<open>a == b\<close> on floats: NaN equals nothing, itself included.\<close>

fun feq :: "pyfloat \<Rightarrow> pyfloat \<Rightarrow> bool" where
  "feq NaN _ = False"
| "feq _ NaN = False"
| "feq a b = (a = b)"

section \<open>The scoring rule of \<open>EnhancedEarningsScanner.analyze_stock\<close>\<close>

datatype recommendation = Recommended | Consider | Avoid

text \<open>
  \<^verbatim>\<open>ivcheck = (od['iv30_rv30'] >= 1.25) if (od['iv30_rv30'] is not None
                and not np.isnan(od['iv30_rv30'])) else False\<close>
\<close>

definition ivcheck :: "pyfloat option \<Rightarrow> bool" where
  "ivcheck v = (case v of None \<Rightarrow> False
     | Some x \<Rightarrow> if \<not> isnan x then fge x (Num 1.25) else False)"

text \<open>
  \<^verbatim>\<open>slopecheck = (od['term_slope'] <= -0.00406) if (od['term_slope'] is not None
                and not np.isnan(od['term_slope'])) else False\<close>
\<close>

definition slopecheck :: "pyfloat option \<Rightarrow> bool" where
  "slopecheck v = (case v of None \<Rightarrow> False
     | Some x \<Rightarrow> if \<not> isnan x then fle x (Num (- 0.00406)) else False)"

definition score :: "bool \<Rightarrow> pyfloat option \<Rightarrow> pyfloat option \<Rightarrow> recommendation" where
  "score avb iv sl =
     (if avb \<and> ivcheck iv \<and> slopecheck sl then Recommended
      else if slopecheck sl \<and> ((avb \<and> \<not> ivcheck iv) \<or> (ivcheck iv \<and> \<not> avb)) then Consider
      else Avoid)"

text \<open>
  The thresholds as the specification words them: a value passes only if it is an actual
  number (or an infinity) on the right side of the threshold.
\<close>

fun iv_passes :: "pyfloat option \<Rightarrow> bool" where
  "iv_passes (Some (Num x)) = (x \<ge> 1.25)"
| "iv_passes (Some PInf) = True"
| "iv_passes _ = False"

fun slope_passes :: "pyfloat option \<Rightarrow> bool" where
  "slope_passes (Some (Num x)) = (x \<le> - 0.00406)"
| "slope_passes (Some NInf) = True"
| "slope_passes _ = False"

section \<open>Float arithmetic used by the recommendation computation\<close>

text \<open>\<open>a - b\<close> on floats, with the special-value rules.\<close>

fun fsub :: "pyfloat \<Rightarrow> pyfloat \<Rightarrow> pyfloat" where
  "fsub NaN _ = NaN"
| "fsub _ NaN = NaN"
| "fsub PInf PInf = NaN"
| "fsub NInf NInf = NaN"
| "fsub PInf _ = PInf"
| "fsub NInf _ = NInf"
| "fsub _ PInf = NInf"
| "fsub _ NInf = PInf"
| "fsub (Num a) (Num b) = Num (a - b)"

text \<open>A float divided by a non-zero Python int.\<close>

fun fdiv_int :: "pyfloat \<Rightarrow> int \<Rightarrow> pyfloat" where
  "fdiv_int NaN d = NaN"
| "fdiv_int PInf d = (if 0 < d then PInf else NInf)"
| "fdiv_int NInf d = (if 0 < d then NInf else PInf)"
| "fdiv_int (Num a) d = Num (a / real_of_int d)"

text \<open>
  \<open>x / d\<close> for a Python float \<open>x\<close> and a Python int \<open>d\<close>: Python raises
  ZeroDivisionError when \<open>d\<close> is 0.
\<close>

definition truediv_int :: "pyfloat \<Rightarrow> int \<Rightarrow> py_error + pyfloat" where
  "truediv_int x d = (if d = 0 then Inl ZeroDivisionError else Inr (fdiv_int x d))"

text \<open>
  \<open>a / b\<close> where \<open>b\<close> is a numpy float: no exception. The sign of a zero is not
  modelled, so a zero divisor is read as positive zero; the source divides only after
  it has excluded \<open>b == 0\<close>.
\<close>

fun fdiv :: "pyfloat \<Rightarrow> pyfloat \<Rightarrow> pyfloat" where
  "fdiv NaN _ = NaN"
| "fdiv _ NaN = NaN"
| "fdiv PInf PInf = NaN"
| "fdiv PInf NInf = NaN"
| "fdiv NInf PInf = NaN"
| "fdiv NInf NInf = NaN"
| "fdiv PInf (Num b) = (if 0 \<le> b then PInf else NInf)"
| "fdiv NInf (Num b) = (if 0 \<le> b then NInf else PInf)"
| "fdiv (Num a) PInf = Num 0"
| "fdiv (Num a) NInf = Num 0"
| "fdiv (Num a) (Num b) =
     (if b = 0 then (if a = 0 then NaN else if 0 < a then PInf else NInf)
      else Num (a / b))"

section \<open>Term structure: \<open>OptionsAnalyzer.build_term_structure\<close>\<close>

text \<open>
  The closure \<open>tspline\<close>: below the first knot the first value, above the last knot the
  last value, otherwise the interpolant \<open>f\<close>. It is only built over non-empty arrays.
\<close>

definition tspline :: "int list \<Rightarrow> pyfloat list \<Rightarrow> (int \<Rightarrow> pyfloat) \<Rightarrow> int \<Rightarrow> pyfloat" where
  "tspline da va f dte =
     (if dte < hd da then hd va
      else if dte > last da then last va
      else f dte)"

text \<open>
  \<open>interp1d\<close> is scipy's constructor and is a parameter here: given the sorted arrays
  it returns the interpolant, or \<open>None\<close> when it raises. It raises on empty
  arrays, which is why the closure never indexes an empty array. Every exception inside
  the \<open>try\<close> (also the IndexError of \<open>va[idx]\<close> when there are fewer values than
  days) selects the fallback \<open>lambda x: np.nan\<close>. \<open>da.argsort()\<close> orders the pairs
  by day; pairs with the same day are kept in their input order here.
\<close>

definition build_term_structure ::
  "(int list \<Rightarrow> pyfloat list \<Rightarrow> (int \<Rightarrow> pyfloat) option) \<Rightarrow>
     int list \<Rightarrow> pyfloat list \<Rightarrow> int \<Rightarrow> pyfloat" where
  "build_term_structure interp1d days ivs =
     (if length ivs < length days \<or> days = [] then (\<lambda>x. NaN)
      else
        let s = sort_key fst (zip days ivs); da = map fst s; va = map snd s in
        case interp1d da va of
          None \<Rightarrow> (\<lambda>x. NaN)
        | Some f \<Rightarrow> tspline da va f)"

text \<open>
  A piecewise-linear interpolant over sorted knots, used to run the model on concrete
  inputs: the value at a knot is the knot's value, between two knots the chord.
\<close>

fun chord :: "(int \<times> real) list \<Rightarrow> int \<Rightarrow> real" where
  "chord [] x = 0"
| "chord [(d, v)] x = v"
| "chord ((d0, v0) # (d1, v1) # ps) x =
     (if x \<le> d0 then v0
      else if x \<le> d1 then v0 + (v1 - v0) * real_of_int (x - d0) / real_of_int (d1 - d0)
      else chord ((d1, v1) # ps) x)"

fun num_of :: "pyfloat \<Rightarrow> real" where
  "num_of (Num a) = a"
| "num_of _ = 0"

definition linear_interp :: "int list \<Rightarrow> pyfloat list \<Rightarrow> (int \<Rightarrow> pyfloat) option" where
  "linear_interp da va =
     (if da = [] then None
      else Some (\<lambda>x. if NaN \<in> set va then NaN else Num (chord (zip da (map num_of va)) x)))"

section \<open>Slope and IV/RV ratio in \<open>OptionsAnalyzer.compute_recommendation\<close>\<close>

text \<open>\<open>min(ds)\<close>: ValueError on an empty list.\<close>

fun py_min :: "int list \<Rightarrow> py_error + int" where
  "py_min [] = Inl ValueError"
| "py_min (x # xs) = Inr (fold min xs x)"

text \<open>\<^verbatim>\<open>dden = (45 - d0) if (45 - d0) != 0 else 1\<close>\<close>

definition dden :: "int \<Rightarrow> int" where
  "dden d0 = (if 45 - d0 \<noteq> 0 then 45 - d0 else 1)"

text \<open>
  \<^verbatim>\<open>d0 = min(ds)
  if d0 == 45: slope = 0
  else:
      dden = (45 - d0) if (45 - d0) != 0 else 1
      slope = (spline(45) - spline(d0))/dden\<close>
\<close>

definition term_slope :: "(int \<Rightarrow> pyfloat) \<Rightarrow> int list \<Rightarrow> py_error + pyfloat" where
  "term_slope spline ds =
     (case py_min ds of
        Inl e \<Rightarrow> Inl e
      | Inr d0 \<Rightarrow>
          if d0 = 45 then Inr (Num 0)
          else truediv_int (fsub (spline 45) (spline d0)) (dden d0))"

text \<open>
  The realized volatility of the attempt: the Yang-Zhang value \<open>yz\<close> of the 3-month
  history unless the Finviz source is in use, where it is NaN.
\<close>

definition historical_volatility :: "bool \<Rightarrow> pyfloat \<Rightarrow> pyfloat" where
  "historical_volatility use_finviz yz = (if \<not> use_finviz then yz else NaN)"

text \<open>
  \<^verbatim>\<open>if hv == 0: iv30_rv30 = 9999
  elif np.isnan(hv): iv30_rv30 = np.nan
  else: iv30_rv30 = iv30/hv\<close>
\<close>

definition iv30_rv30 :: "pyfloat \<Rightarrow> pyfloat \<Rightarrow> pyfloat" where
  "iv30_rv30 iv30 hv =
     (if feq hv (Num 0) then Num 9999
      else if isnan hv then NaN
      else fdiv iv30 hv)"

section \<open>Cache keys: \<open>DataCache._get_cache_key\<close>\<close>

text \<open>\<open>"_".join(xs)\<close>\<close>

fun join_underscore :: "string list \<Rightarrow> string" where
  "join_underscore [] = []"
| "join_underscore [x] = x"
| "join_underscore (x # y # ys) = x @ ''_'' @ join_underscore (y # ys)"

text \<open>
  The digest \<open>hashlib.md5(...).hexdigest()\<close> is a parameter. Strings are compared as
  Python compares them, lexicographically by character code.
\<close>

definition get_cache_key :: "(string \<Rightarrow> string) \<Rightarrow> string \<Rightarrow> string list \<Rightarrow> string" where
  "get_cache_key md5 dt tks = md5 (dt @ ''_'' @ join_underscore (sort tks))"

text \<open>
  The cache directory is modelled as an association list from file names to file
  contents; \<open>os.path.join(self.cache_dir, name)\<close> addresses the file \<open>name\<close> in it.
\<close>

definition get_cache_path :: "string \<Rightarrow> string" where
  "get_cache_path key = key @ ''.pkl''"

section \<open>Cached records\<close>

text \<open>
  The values a result dictionary holds: \<open>None\<close>, strings, booleans and numbers
  (a Python int is the float of the same value). A dictionary is an association list
  in insertion order; assigning to an existing key keeps its position.
\<close>

datatype pyval = VNone | VStr string | VBool bool | VNum pyfloat

type_synonym pydict = "(string \<times> pyval) list"

text \<open>Python's \<open>==\<close> on these values: \<open>False == 0\<close> and \<open>True == 1\<close> hold.\<close>

fun py_eq :: "pyval \<Rightarrow> pyval \<Rightarrow> bool" where
  "py_eq VNone VNone = True"
| "py_eq (VStr a) (VStr b) = (a = b)"
| "py_eq (VBool a) (VBool b) = (a = b)"
| "py_eq (VBool a) (VNum y) = feq (Num (if a then 1 else 0)) y"
| "py_eq (VNum x) (VBool b) = feq x (Num (if b then 1 else 0))"
| "py_eq (VNum x) (VNum y) = feq x y"
| "py_eq _ _ = False"

text \<open>\<open>v in [None, 'N/A', 0]\<close>\<close>

definition in_none_na_zero :: "pyval \<Rightarrow> bool" where
  "in_none_na_zero v =
     (py_eq v VNone \<or> py_eq v (VStr ''N/A'') \<or> py_eq v (VNum (Num 0)))"

text \<open>\<open>d.get(k)\<close> and \<open>d.get(k, default)\<close>\<close>

definition dict_get :: "pydict \<Rightarrow> string \<Rightarrow> pyval \<Rightarrow> pyval" where
  "dict_get d k dflt = (case map_of d k of None \<Rightarrow> dflt | Some v \<Rightarrow> v)"

record missing_descriptor =
  ticker :: pyval
  missing_fields :: "string list"
  earnings_time :: pyval

record cache_entry =
  timestamp :: int
  date :: string
  tickers :: "string list"
  data :: "pydict list"
  missing_data :: "missing_descriptor list"

text \<open>
  A file of the cache directory either unpickles to an entry or is unreadable
  (\<open>pickle.load\<close> or the access to a field of the payload raises).
\<close>

datatype cache_file = Corrupt | Pickled cache_entry

type_synonym cache_store = "(string \<times> cache_file) list"

section \<open>\<open>DataCache._identify_missing_data\<close>\<close>

definition missing_of :: "pydict \<Rightarrow> string list" where
  "missing_of d =
     (if py_eq (dict_get d ''expected_move'' VNone) (VStr ''N/A'') then [''expected_move''] else []) @
     (if dict_get d ''current_iv'' VNone = VNone then [''current_iv''] else []) @
     (if py_eq (dict_get d ''term_structure'' VNone) (VNum (Num 0)) \<or>
         py_eq (dict_get d ''term_structure'' VNone) (VStr ''N/A'')
      then [''term_structure''] else [])"

fun identify_missing_data :: "pydict list \<Rightarrow> py_error + missing_descriptor list" where
  "identify_missing_data [] = Inr []"
| "identify_missing_data (d # ds) =
     (if missing_of d = [] then identify_missing_data ds
      else case map_of d ''ticker'' of
        None \<Rightarrow> Inl KeyError
      | Some t \<Rightarrow>
          (case identify_missing_data ds of
             Inl e \<Rightarrow> Inl e
           | Inr ms \<Rightarrow>
               Inr (\<lparr>ticker = t, missing_fields = missing_of d,
                     earnings_time = dict_get d ''earnings_time'' (VStr ''Unknown'')\<rparr> # ms)))"

section \<open>\<open>DataCache.save_data\<close>, \<open>get_data\<close>, \<open>update_missing_data\<close>, \<open>clear_expired\<close>\<close>

text \<open>
  Times are microseconds since an epoch. \<open>age.days\<close> of a \<open>timedelta\<close> is the floor of
  the difference in days.
\<close>

definition day_us :: int where
  "day_us = 86400000000"

definition age_days :: "int \<Rightarrow> int \<Rightarrow> int" where
  "age_days now ts = (now - ts) div day_us"

definition cache_expiry_days :: int where
  "cache_expiry_days = 7"

text \<open>
  \<open>save_data\<close> lets an exception of \<open>_identify_missing_data\<close> escape before anything
  is written.
\<close>

definition save_data ::
  "(string \<Rightarrow> string) \<Rightarrow> int \<Rightarrow> cache_store \<Rightarrow> string \<Rightarrow> string list \<Rightarrow> pydict list \<Rightarrow>
     py_error + cache_store" where
  "save_data md5 now fs dt tks results =
     (let cp = get_cache_path (get_cache_key md5 dt tks) in
      case identify_missing_data results of
        Inl e \<Rightarrow> Inl e
      | Inr ms \<Rightarrow>
          Inr (AList.update cp
                 (Pickled \<lparr>timestamp = now, date = dt, tickers = tks, data = results,
                           missing_data = ms\<rparr>) fs))"

definition get_data ::
  "(string \<Rightarrow> string) \<Rightarrow> int \<Rightarrow> cache_store \<Rightarrow> string \<Rightarrow> string list \<Rightarrow>
     (pydict list option \<times> missing_descriptor list) \<times> cache_store" where
  "get_data md5 now fs dt tks =
     (let cp = get_cache_path (get_cache_key md5 dt tks) in
      case map_of fs cp of
        None \<Rightarrow> ((None, []), fs)
      | Some Corrupt \<Rightarrow> ((None, []), fs)
      | Some (Pickled c) \<Rightarrow>
          if age_days now (timestamp c) \<ge> cache_expiry_days
          then ((None, []), AList.delete cp fs)
          else ((Some (data c), missing_data c), fs))"

text \<open>
  The inner loop of \<open>update_missing_data\<close>:
  \<^verbatim>\<open>for k, v in new_data.items():
      if (k in entry) and (entry[k] in [None, 'N/A', 0]):
          entry[k] = v\<close>
\<close>

fun fill_entry :: "pydict \<Rightarrow> pydict \<Rightarrow> pydict" where
  "fill_entry [] entry = entry"
| "fill_entry ((k, v) # kvs) entry =
     fill_entry kvs
       (case map_of entry k of
          None \<Rightarrow> entry
        | Some old \<Rightarrow> if in_none_na_zero old then AList.update k v entry else entry)"

text \<open>
  The outer loop over \<open>c['data']\<close>; \<open>entry['ticker']\<close> and \<open>new_data['ticker']\<close>
  raise KeyError when the key is missing.
\<close>

fun update_entries :: "pydict \<Rightarrow> pydict list \<Rightarrow> py_error + pydict list" where
  "update_entries new_data [] = Inr []"
| "update_entries new_data (entry # es) =
     (case map_of entry ''ticker'' of
        None \<Rightarrow> Inl KeyError
      | Some t \<Rightarrow>
          (case map_of new_data ''ticker'' of
             None \<Rightarrow> Inl KeyError
           | Some t' \<Rightarrow>
               (case update_entries new_data es of
                  Inl e \<Rightarrow> Inl e
                | Inr es' \<Rightarrow>
                    Inr ((if py_eq t t' then fill_entry new_data entry else entry) # es'))))"

text \<open>
  Every exception (file missing or unreadable, KeyError) is caught and logged, and the
  file is written only after both loops have finished.
\<close>

definition update_missing_data ::
  "(string \<Rightarrow> string) \<Rightarrow> cache_store \<Rightarrow> string \<Rightarrow> string list \<Rightarrow> pydict \<Rightarrow> cache_store" where
  "update_missing_data md5 fs dt tks new_data =
     (let cp = get_cache_path (get_cache_key md5 dt tks) in
      case map_of fs cp of
        None \<Rightarrow> fs
      | Some Corrupt \<Rightarrow> fs
      | Some (Pickled c) \<Rightarrow>
          (case update_entries new_data (data c) of
             Inl e \<Rightarrow> fs
           | Inr es \<Rightarrow>
               (case identify_missing_data es of
                  Inl e \<Rightarrow> fs
                | Inr ms \<Rightarrow>
                    AList.update cp (Pickled (c\<lparr>data := es, missing_data := ms\<rparr>)) fs)))"

definition endswith :: "string \<Rightarrow> string \<Rightarrow> bool" where
  "endswith s suf = (length suf \<le> length s \<and> drop (length s - length suf) s = suf)"

text \<open>
  One iteration of \<open>clear_expired\<close> for the file name \<open>fn\<close>. The names come from
  the listing of the directory, so the file exists; it is removed when it is expired and
  also, by the bare \<open>except\<close>, when it cannot be read.
\<close>

definition clear_step :: "int \<Rightarrow> string \<Rightarrow> cache_store \<Rightarrow> cache_store" where
  "clear_step now fn fs =
     (if endswith fn ''.pkl'' then
        (case map_of fs fn of
           Some (Pickled c) \<Rightarrow>
             if age_days now (timestamp c) \<ge> cache_expiry_days then AList.delete fn fs else fs
         | _ \<Rightarrow> AList.delete fn fs)
      else fs)"

definition clear_expired :: "int \<Rightarrow> cache_store \<Rightarrow> cache_store" where
  "clear_expired now fs = fold (clear_step now) (map fst fs) fs"

section \<open>\<open>ProxyManager\<close>\<close>

record 'p proxy_manager =
  proxies :: "'p list"
  current_proxy :: "'p option"
  proxy_enabled :: bool

text \<open>
  \<open>random.choice(xs)\<close> on a non-empty list, with the random draw \<open>r\<close> supplied by
  the caller.
\<close>

definition choice :: "nat \<Rightarrow> 'a list \<Rightarrow> 'a" where
  "choice r xs = xs ! (r mod length xs)"

definition get_proxy :: "nat \<Rightarrow> 'p proxy_manager \<Rightarrow> 'p option \<times> 'p proxy_manager" where
  "get_proxy r pm =
     (if \<not> proxy_enabled pm \<or> proxies pm = [] then (None, pm)
      else (Some (choice r (proxies pm)),
            pm\<lparr>current_proxy := Some (choice r (proxies pm))\<rparr>))"

definition rotate_proxy :: "nat \<Rightarrow> 'p proxy_manager \<Rightarrow> 'p option \<times> 'p proxy_manager" where
  "rotate_proxy r pm =
     (if \<not> proxy_enabled pm \<or> length (proxies pm) \<le> 1 then (None, pm)
      else
        let available = filter (\<lambda>p. Some p \<noteq> current_proxy pm) (proxies pm) in
        if available \<noteq> [] then
          (Some (choice r available), pm\<lparr>current_proxy := Some (choice r available)\<rparr>)
        else (None, pm))"

section \<open>Option-chain fetching in \<open>OptionsAnalyzer.compute_recommendation\<close>\<close>







section \<open>Auxiliary notions for the statements\<close>



section \<open>Properties of the scoring rule\<close>

lemma ivcheck_iv_passes: "ivcheck v = iv_passes v"
proof (cases v)
  case None
  then show ?thesis by (simp add: ivcheck_def)
next
  case (Some x)
  then show ?thesis by (cases x) (simp_all add: ivcheck_def fge_def)
qed

lemma slopecheck_slope_passes: "slopecheck v = slope_passes v"
proof (cases v)
  case None
  then show ?thesis by (simp add: slopecheck_def)
next
  case (Some x)
  then show ?thesis by (cases x) (simp_all add: slopecheck_def)
qed

text \<open>
  C1. The scoring rule returns Recommended iff the average-volume flag holds, the IV/RV
  ratio is at least 1.25 and the slope is at most -0.00406; Consider iff the slope passes
  and exactly one of the other two holds; Avoid in every other case. A ratio or slope
  that is NaN or None fails its threshold.
\<close>

theorem score_rule:
  "((score avb iv sl = Recommended) = (avb \<and> iv_passes iv \<and> slope_passes sl)) \<and>
   ((score avb iv sl = Consider) = (slope_passes sl \<and> (avb \<noteq> iv_passes iv))) \<and>
   ((score avb iv sl = Avoid) =
      (\<not> (avb \<and> iv_passes iv \<and> slope_passes sl) \<and>
       \<not> (slope_passes sl \<and> (avb \<noteq> iv_passes iv)))) \<and>
   \<not> iv_passes None \<and> \<not> iv_passes (Some NaN) \<and>
   \<not> slope_passes None \<and> \<not> slope_passes (Some NaN) \<and>
   score avb (Some NaN) sl \<noteq> Recommended \<and> score avb None sl \<noteq> Recommended \<and>
   score avb iv (Some NaN) = Avoid \<and> score avb iv None = Avoid"
  by (auto simp: score_def ivcheck_iv_passes slopecheck_slope_passes)

theorem score_rule_witness:
  "score True (Some (Num 2)) (Some (Num (- 1))) = Recommended \<and>
   score False (Some (Num 2)) (Some (Num (- 1))) = Consider \<and>
   score True (Some NaN) (Some (Num (- 1))) = Consider \<and>
   score True (Some (Num 2)) (Some NaN) = Avoid \<and>
   score True (Some (Num 2)) (Some (Num 0)) = Avoid"
  using score_rule [of True "Some (Num 2)" "Some (Num (- 1))"]
    score_rule [of False "Some (Num 2)" "Some (Num (- 1))"]
    score_rule [of True "Some NaN" "Some (Num (- 1))"]
    score_rule [of True "Some (Num 2)" "Some NaN"]
    score_rule [of True "Some (Num 2)" "Some (Num 0)"]
  by simp

section \<open>Properties of the term structure\<close>

lemma sorted_hd_le: "sorted xs \<Longrightarrow> x \<in> set xs \<Longrightarrow> hd xs \<le> (x::int)"
  by (cases xs) auto

lemma sorted_le_last: "sorted xs \<Longrightarrow> x \<in> set xs \<Longrightarrow> (x::int) \<le> last xs"
  by (induction xs) (auto split: if_splits)

lemma sort_key_fst_nonempty: "ps \<noteq> [] \<Longrightarrow> sort_key fst ps \<noteq> []"
  by (metis length_sort length_0_conv)

lemma hd_sorted_days:
  fixes ps :: "(int \<times> 'a) list"
  assumes "ps \<noteq> []"
  shows "fst (hd (sort_key fst ps)) = Min (set (map fst ps))"
proof -
  let ?s = "sort_key fst ps"
  have ne: "?s \<noteq> []" using assms by (rule sort_key_fst_nonempty)
  have hd_in: "hd ?s \<in> set ps" using ne by (metis hd_in_set set_sort)
  have srt: "sorted (map fst ?s)" by (rule sorted_sort_key)
  have "Min (set (map fst ps)) = hd (map fst ?s)"
  proof (rule Min_eqI)
    show "finite (set (map fst ps))" by simp
    show "\<And>y. y \<in> set (map fst ps) \<Longrightarrow> hd (map fst ?s) \<le> y"
      using sorted_hd_le [OF srt] by simp
    show "hd (map fst ?s) \<in> set (map fst ps)"
      using ne hd_in by (simp add: hd_map)
  qed
  then show ?thesis using ne by (simp add: hd_map)
qed

lemma last_sorted_days:
  fixes ps :: "(int \<times> 'a) list"
  assumes "ps \<noteq> []"
  shows "fst (last (sort_key fst ps)) = Max (set (map fst ps))"
proof -
  let ?s = "sort_key fst ps"
  have ne: "?s \<noteq> []" using assms by (rule sort_key_fst_nonempty)
  have last_in: "last ?s \<in> set ps" using ne by (metis last_in_set set_sort)
  have srt: "sorted (map fst ?s)" by (rule sorted_sort_key)
  have "Max (set (map fst ps)) = last (map fst ?s)"
  proof (rule Max_eqI)
    show "finite (set (map fst ps))" by simp
    show "\<And>y. y \<in> set (map fst ps) \<Longrightarrow> y \<le> last (map fst ?s)"
      using sorted_le_last [OF srt] by simp
    show "last (map fst ?s) \<in> set (map fst ps)"
      using ne last_in by (simp add: last_map)
  qed
  then show ?thesis using ne by (simp add: last_map)
qed

lemma build_term_structure_tspline:
  assumes "ps \<noteq> []"
    and "interp1d (map fst (sort_key fst ps)) (map snd (sort_key fst ps)) = Some f"
  shows "build_term_structure interp1d (map fst ps) (map snd ps) =
           tspline (map fst (sort_key fst ps)) (map snd (sort_key fst ps)) f"
  using assms by (simp add: build_term_structure_def zip_map_fst_snd Let_def)

text \<open>
  C2. For a non-empty list of (days, volatility) pairs on which the interpolant is
  built, the term structure evaluated strictly below the smallest day returns the
  volatility listed with the smallest day, and strictly above the largest day the
  volatility listed with the largest day; the interpolant is not consulted.
\<close>

theorem term_structure_clamps:
  assumes "ps \<noteq> []"
    and "interp1d (map fst (sort_key fst ps)) (map snd (sort_key fst ps)) = Some f"
  shows "(dte < Min (set (map fst ps)) \<longrightarrow>
            (Min (set (map fst ps)),
             build_term_structure interp1d (map fst ps) (map snd ps) dte) \<in> set ps) \<and>
         (dte > Max (set (map fst ps)) \<longrightarrow>
            (Max (set (map fst ps)),
             build_term_structure interp1d (map fst ps) (map snd ps) dte) \<in> set ps)"
proof -
  let ?s = "sort_key fst ps"
  let ?ts = "build_term_structure interp1d (map fst ps) (map snd ps)"
  have ne: "?s \<noteq> []" using assms(1) by (rule sort_key_fst_nonempty)
  have hd_in: "hd ?s \<in> set ps" using ne by (metis hd_in_set set_sort)
  have last_in: "last ?s \<in> set ps" using ne by (metis last_in_set set_sort)
  have lo: "fst (hd ?s) = Min (set (map fst ps))" using assms(1) by (rule hd_sorted_days)
  have hi: "fst (last ?s) = Max (set (map fst ps))" using assms(1) by (rule last_sorted_days)
  have ts: "?ts = tspline (map fst ?s) (map snd ?s) f"
    using assms by (rule build_term_structure_tspline)
  have le: "Min (set (map fst ps)) \<le> Max (set (map fst ps))"
    using assms(1) by simp
  have below: "(Min (set (map fst ps)), ?ts dte) \<in> set ps" if "dte < Min (set (map fst ps))"
  proof -
    have "?ts dte = snd (hd ?s)"
      using that ne lo by (simp add: ts tspline_def hd_map)
    with lo hd_in show ?thesis by (metis prod.collapse)
  qed
  have above: "(Max (set (map fst ps)), ?ts dte) \<in> set ps" if "dte > Max (set (map fst ps))"
  proof -
    have "\<not> dte < Min (set (map fst ps))" using that le by linarith
    then have "?ts dte = snd (last ?s)"
      using that ne lo hi by (simp add: ts tspline_def hd_map last_map)
    with hi last_in show ?thesis by (metis prod.collapse)
  qed
  from below above show ?thesis by blast
qed

theorem term_structure_clamps_witness:
  "build_term_structure linear_interp [30, 7, 60] [Num 0.5, Num 0.8, Num 0.4] 3 = Num 0.8 \<and>
   build_term_structure linear_interp [30, 7, 60] [Num 0.5, Num 0.8, Num 0.4] 90 = Num 0.4"
proof -
  let ?ps = "[(30, Num 0.5), (7, Num 0.8), (60, Num 0.4)] :: (int \<times> pyfloat) list"
  have ne: "?ps \<noteq> []" by simp
  obtain f where f: "linear_interp (map fst (sort_key fst ?ps)) (map snd (sort_key fst ?ps)) = Some f"
    by (simp add: linear_interp_def)
  show ?thesis
    using term_structure_clamps [of ?ps linear_interp f 3, OF ne f]
      term_structure_clamps [of ?ps linear_interp f 90, OF ne f]
    by simp
qed

section \<open>Properties of the slope and of the IV/RV ratio\<close>

lemma py_min_Min: "ds \<noteq> [] \<Longrightarrow> py_min ds = Inr (Min (set ds))"
proof (cases ds)
  case Nil
  assume "ds \<noteq> []"
  with Nil show ?thesis by simp
next
  case (Cons x xs)
  have "fold min xs x = Min (set (x # xs))" by (rule Min.set_eq_fold [symmetric])
  with Cons show ?thesis by simp
qed

text \<open>
  C9. The slope is exactly 0 when the shortest days-to-expiry is 45; otherwise it is
  (structure(45) - structure(shortDays)) / (45 - shortDays). The denominator is 1
  whenever 45 - shortDays would be 0, so it is never 0 and the division never raises
  ZeroDivisionError.
\<close>

theorem term_slope_rule:
  assumes "ds \<noteq> []"
  shows "(Min (set ds) = 45 \<longrightarrow> term_slope spline ds = Inr (Num 0)) \<and>
         (Min (set ds) \<noteq> 45 \<longrightarrow>
            term_slope spline ds =
              Inr (fdiv_int (fsub (spline 45) (spline (Min (set ds)))) (45 - Min (set ds)))) \<and>
         dden d = (if 45 - d = 0 then 1 else 45 - d) \<and> dden d \<noteq> 0 \<and>
         term_slope spline ds \<noteq> Inl ZeroDivisionError"
  using assms by (auto simp: term_slope_def py_min_Min dden_def truediv_int_def)

theorem term_slope_rule_witness:
  "term_slope (\<lambda>x. Num 0.3) [45, 52] = Inr (Num 0) \<and>
   term_slope (build_term_structure linear_interp [7, 45] [Num 1, Num 0.24]) [7, 45] = Inr (Num (- 0.02)) \<and>
   dden 45 = 1 \<and> dden 7 = 38"
  using term_slope_rule [of "[45, 52]" "\<lambda>x. Num 0.3" 45]
    term_slope_rule [of "[7, 45]" "build_term_structure linear_interp [7, 45] [Num 1, Num 0.24]" 7]
  by (simp add: build_term_structure_def linear_interp_def tspline_def)

text \<open>
  C10, as stated, fails: a realized volatility that is a non-zero number, not NaN,
  still gives a NaN ratio when the 30-day implied volatility is NaN.
\<close>

theorem iv30_rv30_nan_counterexample:
  "iv30_rv30 NaN (Num 0.2) = NaN \<and> \<not> isnan (Num 0.2) \<and> \<not> feq (Num 0.2) (Num 0)"
  by (simp add: iv30_rv30_def)

text \<open>
  C10, amended. A realized volatility equal to 0 gives the sentinel 9999, which passes
  the 1.25 threshold; a NaN realized volatility gives NaN; every other realized
  volatility gives the quotient IV30 / RV, so the ratio is NaN exactly when the realized
  volatility is NaN, or it is non-zero and the implied volatility is NaN or both are
  infinite.
\<close>

theorem iv30_rv30_rule:
  "iv30_rv30 iv30 (Num 0) = Num 9999 \<and>
   ivcheck (Some (iv30_rv30 iv30 (Num 0))) \<and>
   iv30_rv30 iv30 NaN = NaN \<and>
   (hv \<noteq> Num 0 \<and> hv \<noteq> NaN \<longrightarrow> iv30_rv30 iv30 hv = fdiv iv30 hv) \<and>
   ((iv30_rv30 iv30 hv = NaN) =
      (hv = NaN \<or> (hv \<noteq> Num 0 \<and> (iv30 = NaN \<or> (iv30 \<in> {PInf, NInf} \<and> hv \<in> {PInf, NInf})))))"
proof -
  have 1: "iv30_rv30 iv30 (Num 0) = Num 9999" by (simp add: iv30_rv30_def)
  have 2: "ivcheck (Some (iv30_rv30 iv30 (Num 0)))" by (simp add: 1 ivcheck_def fge_def)
  have 3: "iv30_rv30 iv30 NaN = NaN" by (simp add: iv30_rv30_def)
  have 4: "iv30_rv30 iv30 hv = fdiv iv30 hv" if "hv \<noteq> Num 0" "hv \<noteq> NaN"
    using that by (cases hv) (simp_all add: iv30_rv30_def)
  have 5: "(iv30_rv30 iv30 hv = NaN) =
      (hv = NaN \<or> (hv \<noteq> Num 0 \<and> (iv30 = NaN \<or> (iv30 \<in> {PInf, NInf} \<and> hv \<in> {PInf, NInf}))))"
    by (cases hv; cases iv30) (simp_all add: iv30_rv30_def)
  from 1 2 3 4 5 show ?thesis by blast
qed

theorem iv30_rv30_rule_witness:
  "iv30_rv30 (Num 0.4) (Num 0) = Num 9999 \<and> iv30_rv30 (Num 0.4) (Num 0.2) = Num 2 \<and>
   iv30_rv30 (Num 0.4) NaN = NaN"
  using iv30_rv30_rule [of "Num 0.4" "Num 0.2"] by simp

section \<open>Properties of the cache key\<close>

text \<open>
  C3. The cache key is invariant under permutation of the ticker list, so lookups,
  saves and merges with the same date and a reordered ticker list address the same file.
\<close>

theorem cache_key_permutation:
  assumes "mset tks = mset tks'"
  shows "get_cache_key md5 dt tks = get_cache_key md5 dt tks' \<and>
         get_cache_path (get_cache_key md5 dt tks) = get_cache_path (get_cache_key md5 dt tks') \<and>
         get_data md5 now fs dt tks = get_data md5 now fs dt tks' \<and>
         update_missing_data md5 fs dt tks new_data = update_missing_data md5 fs dt tks' new_data"
proof -
  have "sort tks = sort tks'"
    using assms by (intro properties_for_sort) simp_all
  then have "get_cache_key md5 dt tks = get_cache_key md5 dt tks'"
    by (simp add: get_cache_key_def)
  then show ?thesis by (simp add: get_data_def update_missing_data_def)
qed

theorem cache_key_permutation_witness:
  "get_cache_key (\<lambda>s. s) ''2024-05-01'' [''MSFT'', ''AAPL'', ''IBM''] = ''2024-05-01_AAPL_IBM_MSFT'' \<and>
   get_cache_key (\<lambda>s. s) ''2024-05-01'' [''IBM'', ''MSFT'', ''AAPL''] = ''2024-05-01_AAPL_IBM_MSFT''"
proof -
  have p: "mset [''MSFT'', ''AAPL'', ''IBM''] = mset [''IBM'', ''MSFT'', ''AAPL'']" by (simp add: add_mset_commute)
  have "get_cache_key (\<lambda>s. s) ''2024-05-01'' [''IBM'', ''MSFT'', ''AAPL''] = ''2024-05-01_AAPL_IBM_MSFT''"
    by code_simp
  with cache_key_permutation [OF p, of "\<lambda>s. s" "''2024-05-01''"] show ?thesis by simp
qed

section \<open>Properties of \<open>get_data\<close> and \<open>clear_expired\<close>\<close>

lemma age_days_expired: "7 * day_us \<le> now - ts \<Longrightarrow> cache_expiry_days \<le> age_days now ts"
proof -
  assume "7 * day_us \<le> now - ts"
  then have "(7 * day_us) div day_us \<le> (now - ts) div day_us"
    by (intro zdiv_mono1) (simp_all add: day_us_def)
  then show ?thesis by (simp add: age_days_def cache_expiry_days_def day_us_def)
qed

text \<open>
  C5. For a stored entry whose timestamp is at least 7 days in the past, \<open>get_data\<close>
  for its key returns (None, []) and removes the entry's file in the same call.
\<close>

theorem get_data_expired:
  assumes "map_of fs (get_cache_path (get_cache_key md5 dt tks)) = Some (Pickled c)"
    and "7 * day_us \<le> now - timestamp c"
  shows "get_data md5 now fs dt tks =
           ((None, []), AList.delete (get_cache_path (get_cache_key md5 dt tks)) fs) \<and>
         map_of (snd (get_data md5 now fs dt tks)) (get_cache_path (get_cache_key md5 dt tks)) = None"
  using assms age_days_expired [of now "timestamp c"]
  by (simp add: get_data_def Let_def AList.delete_conv)

theorem get_data_expired_witness:
  "get_data (\<lambda>s. s) (8 * day_us)
     [(''2024-05-01_AAPL.pkl'',
       Pickled \<lparr>timestamp = 0, date = ''2024-05-01'', tickers = [''AAPL''],
                data = [[(''ticker'', VStr ''AAPL'')]], missing_data = []\<rparr>)]
     ''2024-05-01'' [''AAPL''] = ((None, []), [])"
proof -
  let ?c = "\<lparr>timestamp = 0, date = ''2024-05-01'', tickers = [''AAPL''],
                data = [[(''ticker'', VStr ''AAPL'')]], missing_data = []\<rparr>"
  let ?fs = "[(''2024-05-01_AAPL.pkl'', Pickled ?c)]"
  have k: "map_of ?fs (get_cache_path (get_cache_key (\<lambda>s. s) ''2024-05-01'' [''AAPL''])) = Some (Pickled ?c)"
    by (simp add: get_cache_path_def get_cache_key_def)
  have t: "7 * day_us \<le> 8 * day_us - timestamp ?c" by (simp add: day_us_def)
  show ?thesis using get_data_expired [OF k t]
    by (simp add: get_cache_path_def get_cache_key_def AList.delete_eq)
qed

text \<open>
  C6, as stated, fails: \<open>get_data\<close> on an unreadable file reports a miss and leaves
  the file where it is.
\<close>

theorem get_data_corrupt_counterexample:
  "get_data (\<lambda>s. s) 0 [(''2024-05-01_AAPL.pkl'', Corrupt)] ''2024-05-01'' [''AAPL''] =
     ((None, []), [(''2024-05-01_AAPL.pkl'', Corrupt)])"
  by (simp add: get_data_def get_cache_path_def get_cache_key_def)

lemma clear_step_other: "fn \<noteq> k \<Longrightarrow> map_of (clear_step now fn fs) k = map_of fs k"
  by (simp add: clear_step_def AList.delete_conv split: option.splits cache_file.splits)

lemma clear_step_absent: "map_of fs k = None \<Longrightarrow> map_of (clear_step now fn fs) k = None"
  by (cases "fn = k") (auto simp: clear_step_def AList.delete_conv split: option.splits cache_file.splits)

lemma fold_clear_step_absent:
  "map_of fs k = None \<Longrightarrow> map_of (fold (clear_step now) fns fs) k = None"
  by (induction fns arbitrary: fs) (simp_all add: clear_step_absent)

lemma clear_step_corrupt:
  "endswith k ''.pkl'' \<Longrightarrow> map_of fs k = Some Corrupt \<Longrightarrow> map_of (clear_step now k fs) k = None"
  by (simp add: clear_step_def AList.delete_conv)

lemma fold_clear_step_corrupt:
  "endswith k ''.pkl'' \<Longrightarrow> map_of fs k = Some Corrupt \<Longrightarrow> k \<in> set fns \<Longrightarrow>
     map_of (fold (clear_step now) fns fs) k = None"
proof (induction fns arbitrary: fs)
  case Nil
  then show ?case by simp
next
  case (Cons fn fns)
  show ?case
  proof (cases "fn = k")
    case True
    with Cons.prems show ?thesis
      by (simp add: fold_clear_step_absent clear_step_corrupt)
  next
    case False
    with Cons.prems have "k \<in> set fns" by simp
    moreover have "map_of (clear_step now fn fs) k = Some Corrupt"
      using False Cons.prems by (simp add: clear_step_other)
    ultimately show ?thesis using Cons.IH Cons.prems(1) by simp
  qed
qed

text \<open>
  C6, amended. \<open>get_data\<close> treats an unreadable file as a miss and does not touch
  the cache directory; it is \<open>clear_expired\<close> that removes an unreadable \<open>.pkl\<close>
  file.
\<close>

theorem corrupt_entry_handling:
  "(map_of fs (get_cache_path (get_cache_key md5 dt tks)) = Some Corrupt \<longrightarrow>
      get_data md5 now fs dt tks = ((None, []), fs)) \<and>
   (endswith fn ''.pkl'' \<and> map_of fs fn = Some Corrupt \<longrightarrow>
      map_of (clear_expired now fs) fn = None)"
proof -
  have "map_of (clear_expired now fs) fn = None"
    if "endswith fn ''.pkl''" "map_of fs fn = Some Corrupt"
  proof -
    from that(2) have "fn \<in> set (map fst fs)"
      by (metis map_of_eq_None_iff option.distinct(1) set_map)
    with that show ?thesis unfolding clear_expired_def by (rule fold_clear_step_corrupt)
  qed
  then show ?thesis by (simp add: get_data_def Let_def)
qed

theorem corrupt_entry_handling_witness:
  "get_data (\<lambda>s. s) 0 [(''2024-05-01_AAPL.pkl'', Corrupt)] ''2024-05-01'' [''AAPL''] =
     ((None, []), [(''2024-05-01_AAPL.pkl'', Corrupt)]) \<and>
   map_of (clear_expired 0 [(''2024-05-01_AAPL.pkl'', Corrupt)]) ''2024-05-01_AAPL.pkl'' = None"
  using corrupt_entry_handling [of "[(''2024-05-01_AAPL.pkl'', Corrupt)]" "\<lambda>s. s" "''2024-05-01''"
      "[''AAPL'']" 0 "''2024-05-01_AAPL.pkl''"]
  by (simp add: get_cache_path_def get_cache_key_def endswith_def)

section \<open>Properties of \<open>update_missing_data\<close>\<close>









lemma update_missing_data_example:
  "update_missing_data (\<lambda>s. s)
     [(''2024-05-01_AAPL.pkl'',
       Pickled \<lparr>timestamp = 0, date = ''2024-05-01'', tickers = [''AAPL''],
                data = [[(''ticker'', VStr ''AAPL''), (''expected_move'', VStr ''N/A''),
                         (''term_structure'', VNum (Num 0.3))]],
                missing_data = []\<rparr>)]
     ''2024-05-01'' [''AAPL'']
     [(''ticker'', VStr ''AAPL''), (''expected_move'', VStr ''5.0%''),
      (''term_structure'', VNum (Num 0.9))] =
     [(''2024-05-01_AAPL.pkl'',
       Pickled \<lparr>timestamp = 0, date = ''2024-05-01'', tickers = [''AAPL''],
                data = [[(''ticker'', VStr ''AAPL''), (''expected_move'', VStr ''5.0%''),
                         (''term_structure'', VNum (Num 0.3))]],
                missing_data = [\<lparr>ticker = VStr ''AAPL'', missing_fields = [''current_iv''],
                                 earnings_time = VStr ''Unknown''\<rparr>]\<rparr>)]"
  by (simp add: update_missing_data_def get_cache_path_def get_cache_key_def in_none_na_zero_def
      missing_of_def dict_get_def)

section \<open>Properties of proxy rotation\<close>

lemma choice_in_set: "xs \<noteq> [] \<Longrightarrow> choice r xs \<in> set xs"
  by (simp add: choice_def)

lemma available_nonempty:
  assumes "2 \<le> length ps" and "distinct ps"
  shows "filter (\<lambda>p. Some p \<noteq> cur) ps \<noteq> []"
proof -
  from assms(1) obtain a b rest where ps: "ps = a # b # rest"
    by (cases ps; cases "tl ps") auto
  with assms(2) have "a \<noteq> b" by simp
  then have "Some a \<noteq> cur \<or> Some b \<noteq> cur" by auto
  then show ?thesis by (auto simp: ps)
qed

text \<open>
  C7. When the pool is disabled or holds fewer than 2 proxies, \<open>rotate_proxy\<close> changes
  nothing. When it is enabled and holds at least 2 (distinct) proxies, the new current
  proxy is a member of the pool and differs from the previous current proxy, whatever
  the random draw; with exactly 2 proxies it is the other one.
\<close>

theorem rotate_proxy_rule:
  "(\<not> proxy_enabled pm \<or> length (proxies pm) < 2 \<longrightarrow> rotate_proxy r pm = (None, pm)) \<and>
   (proxy_enabled pm \<and> 2 \<le> length (proxies pm) \<and> distinct (proxies pm) \<longrightarrow>
      (\<exists>p. rotate_proxy r pm = (Some p, pm\<lparr>current_proxy := Some p\<rparr>) \<and>
           p \<in> set (proxies pm) \<and> Some p \<noteq> current_proxy pm)) \<and>
   (proxy_enabled pm \<and> proxies pm = [a, b] \<and> a \<noteq> b \<and> current_proxy pm = Some a \<longrightarrow>
      rotate_proxy r pm = (Some b, pm\<lparr>current_proxy := Some b\<rparr>)) \<and>
   (proxy_enabled pm \<and> proxies pm = [a, b] \<and> a \<noteq> b \<and> current_proxy pm = Some b \<longrightarrow>
      rotate_proxy r pm = (Some a, pm\<lparr>current_proxy := Some a\<rparr>))"
proof -
  have 1: "rotate_proxy r pm = (None, pm)" if "\<not> proxy_enabled pm \<or> length (proxies pm) < 2"
    using that by (auto simp: rotate_proxy_def)
  have 2: "\<exists>p. rotate_proxy r pm = (Some p, pm\<lparr>current_proxy := Some p\<rparr>) \<and>
           p \<in> set (proxies pm) \<and> Some p \<noteq> current_proxy pm"
    if "proxy_enabled pm" "2 \<le> length (proxies pm)" "distinct (proxies pm)"
  proof -
    let ?av = "filter (\<lambda>p. Some p \<noteq> current_proxy pm) (proxies pm)"
    have ne: "?av \<noteq> []" using that(2,3) by (rule available_nonempty)
    then have "choice r ?av \<in> set ?av" by (rule choice_in_set)
    then have "choice r ?av \<in> set (proxies pm)" "Some (choice r ?av) \<noteq> current_proxy pm"
      by simp_all
    moreover have "rotate_proxy r pm =
        (Some (choice r ?av), pm\<lparr>current_proxy := Some (choice r ?av)\<rparr>)"
      using that(1,2) ne by (simp add: rotate_proxy_def Let_def)
    ultimately show ?thesis by blast
  qed
  have 3: "rotate_proxy r pm = (Some b, pm\<lparr>current_proxy := Some b\<rparr>)"
    if "proxy_enabled pm" "proxies pm = [a, b]" "a \<noteq> b" "current_proxy pm = Some a"
    using that by (simp add: rotate_proxy_def choice_def)
  have 4: "rotate_proxy r pm = (Some a, pm\<lparr>current_proxy := Some a\<rparr>)"
    if "proxy_enabled pm" "proxies pm = [a, b]" "a \<noteq> b" "current_proxy pm = Some b"
    using that by (simp add: rotate_proxy_def choice_def)
  from 1 2 3 4 show ?thesis by blast
qed

theorem rotate_proxy_rule_witness:
  "rotate_proxy 5 \<lparr>proxies = [''http://10.0.0.1:80''], current_proxy = Some ''http://10.0.0.1:80'',
                    proxy_enabled = True\<rparr> =
     (None, \<lparr>proxies = [''http://10.0.0.1:80''], current_proxy = Some ''http://10.0.0.1:80'',
              proxy_enabled = True\<rparr>) \<and>
   rotate_proxy 5 \<lparr>proxies = [''http://10.0.0.1:80'', ''http://10.0.0.2:80''],
                    current_proxy = Some ''http://10.0.0.1:80'', proxy_enabled = True\<rparr> =
     (Some ''http://10.0.0.2:80'',
      \<lparr>proxies = [''http://10.0.0.1:80'', ''http://10.0.0.2:80''],
       current_proxy = Some ''http://10.0.0.2:80'', proxy_enabled = True\<rparr>) \<and>
   rotate_proxy 5 \<lparr>proxies = [''http://10.0.0.1:80'', ''http://10.0.0.2:80''],
                    current_proxy = Some ''http://10.0.0.2:80'', proxy_enabled = True\<rparr> =
     (Some ''http://10.0.0.1:80'',
      \<lparr>proxies = [''http://10.0.0.1:80'', ''http://10.0.0.2:80''],
       current_proxy = Some ''http://10.0.0.1:80'', proxy_enabled = True\<rparr>) \<and>
   (\<exists>p. fst (rotate_proxy 7 \<lparr>proxies = [''a'', ''b'', ''c''], current_proxy = Some ''b'',
                              proxy_enabled = True\<rparr>) = Some p \<and> p \<in> {''a'', ''c''})"
  using rotate_proxy_rule [of "\<lparr>proxies = [''http://10.0.0.1:80''],
          current_proxy = Some ''http://10.0.0.1:80'', proxy_enabled = True\<rparr>" 5]
    rotate_proxy_rule [of "\<lparr>proxies = [''http://10.0.0.1:80'', ''http://10.0.0.2:80''],
          current_proxy = Some ''http://10.0.0.1:80'', proxy_enabled = True\<rparr>" 5
          "''http://10.0.0.1:80''" "''http://10.0.0.2:80''"]
    rotate_proxy_rule [of "\<lparr>proxies = [''http://10.0.0.1:80'', ''http://10.0.0.2:80''],
          current_proxy = Some ''http://10.0.0.2:80'', proxy_enabled = True\<rparr>" 5
          "''http://10.0.0.1:80''" "''http://10.0.0.2:80''"]
    rotate_proxy_rule [of "\<lparr>proxies = [''a'', ''b'', ''c''], current_proxy = Some ''b'',
          proxy_enabled = True\<rparr>" 7]
  by auto

section \<open>Properties of the per-expiry retry\<close>












end
